theory Spec2Isabelle
  imports Main
begin

section \<open>Errors raised by the program\<close>

text \<open>
  Every \<^verbatim>\<open>raise\<close> of the modelled functions is a value of this type.
  \<open>ValueError n s\<close> is the error of \<^verbatim>\<open>cron_str_to_cron_str7\<close>, whose message holds the
  number of elements found and the offending string.  \<open>IOError_ack r\<close> is
  \<^verbatim>\<open>IOError(some_result)\<close> of \<^verbatim>\<open>btu_rq.py\<close>, carrying the falsy reply of the store;
  \<open>IOError_msg m\<close> is the \<^verbatim>\<open>IOError\<close> of \<^verbatim>\<open>structs/__init__.py\<close>, carrying a message.
  \<open>LibraryError n\<close> stands for an exception raised inside a third-party library
  (redis, rq, requests, croniter, zoneinfo) and passed on unchanged.
\<close>

datatype error =
    ValueError nat string
  | IndexError
  | IOError_ack int
  | IOError_msg string
  | AttributeError
  | LibraryError string

section \<open>Python string primitives used by \<^verbatim>\<open>btu_cron.py\<close>\<close>

text \<open>
  Strings are \<open>char list\<close>; the model covers code points 0 to 255.  \<open>isspace\<close> is the
  set of characters \<^verbatim>\<open>str.strip()\<close> removes in that range: 9 to 13, 28 to 32, 133, 160.
\<close>

definition isspace :: "char \<Rightarrow> bool" where
  "isspace c = (of_char c \<in> {9, 10, 11, 12, 13, 28, 29, 30, 31, 32, 133, 160 :: nat})"

definition strip :: "string \<Rightarrow> string" where
  "strip s = rev (dropWhile isspace (rev (dropWhile isspace s)))"

text \<open>
  \<^verbatim>\<open>s.split(" ")\<close>: cut at every single space; adjacent spaces give empty elements, and
  the empty string gives one empty element.
\<close>

fun split_sp :: "string \<Rightarrow> string list" where
  "split_sp [] = [[]]"
| "split_sp (c # cs) =
     (if c = CHR '' '' then [] # split_sp cs
      else (case split_sp cs of
              [] \<Rightarrow> [[c]]
            | t # ts \<Rightarrow> (c # t) # ts))"

text \<open>
  The fields of an input as the specification counts them: the maximal runs of
  characters that are not whitespace (what \<^verbatim>\<open>s.split()\<close> returns).  The code never
  computes this number; it is here to compare the code's count with.  \<open>inside\<close> tells
  whether the previous character belonged to a field.
\<close>

fun count_fields :: "bool \<Rightarrow> string \<Rightarrow> nat" where
  "count_fields inside [] = 0"
| "count_fields inside (c # cs) =
     (if isspace c then count_fields False cs
      else (if inside then 0 else 1) + count_fields True cs)"

definition field_count :: "string \<Rightarrow> nat" where
  "field_count s = count_fields False s"

section \<open>\<^verbatim>\<open>CronStruct\<close>\<close>

record CronStruct =
  second :: "string option"
  minute :: "string option"
  hour :: "string option"
  day_of_month :: "string option"
  month :: "string option"
  day_of_week :: "string option"
  year :: "string option"

text \<open>\<^verbatim>\<open>value if value else '*'\<close>: \<^verbatim>\<open>None\<close> and the empty string are both falsy.\<close>

definition value_or_wildcard :: "string option \<Rightarrow> string" where
  "value_or_wildcard v = (case v of None \<Rightarrow> ''*'' | Some x \<Rightarrow> (if x = [] then ''*'' else x))"

definition to_string :: "CronStruct \<Rightarrow> string" where
  "to_string c =
     value_or_wildcard (minute c) @ '' '' @
     value_or_wildcard (hour c) @ '' '' @
     value_or_wildcard (day_of_month c) @ '' '' @
     value_or_wildcard (month c) @ '' '' @
     value_or_wildcard (day_of_week c)"

definition to_string7 :: "CronStruct \<Rightarrow> string" where
  "to_string7 c =
     value_or_wildcard (second c) @ '' '' @
     value_or_wildcard (minute c) @ '' '' @
     value_or_wildcard (hour c) @ '' '' @
     value_or_wildcard (day_of_month c) @ '' '' @
     value_or_wildcard (month c) @ '' '' @
     value_or_wildcard (day_of_week c) @ '' '' @
     value_or_wildcard (year c)"

text \<open>
  \<^verbatim>\<open>cron_str_to_cron_str7\<close>: the elements are counted on the stripped string, the result
  is built from the string as given.
\<close>

definition cron_str_to_cron_str7 :: "string \<Rightarrow> error + string" where
  "cron_str_to_cron_str7 cron_expression_string =
     (let cron_elements = split_sp (strip cron_expression_string);
          n = length cron_elements
      in if n = 5 then Inr (''0 '' @ cron_expression_string @ '' *'')
         else if n = 6 then Inr (''0 '' @ cron_expression_string)
         else if n = 7 then Inr cron_expression_string
         else Inl (ValueError n cron_expression_string))"

definition nonwildcard_or_none :: "string \<Rightarrow> string option" where
  "nonwildcard_or_none element = (if element = ''*'' then None else Some element)"

text \<open>
  \<^verbatim>\<open>CronStruct.from_string\<close>.  The seven reads \<^verbatim>\<open>vector_cron7[0]\<close> to
  \<^verbatim>\<open>vector_cron7[6]\<close> raise \<^verbatim>\<open>IndexError\<close> on a shorter list; elements after the
  seventh are ignored.
\<close>

definition from_string :: "string \<Rightarrow> error + CronStruct" where
  "from_string cron_string =
     (case cron_str_to_cron_str7 cron_string of
        Inl e \<Rightarrow> Inl e
      | Inr cron7_expression \<Rightarrow>
          (case split_sp cron7_expression of
             a # b # c # d # e # f # g # rest \<Rightarrow>
               Inr \<lparr> second = nonwildcard_or_none a,
                     minute = nonwildcard_or_none b,
                     hour = nonwildcard_or_none c,
                     day_of_month = nonwildcard_or_none d,
                     month = nonwildcard_or_none e,
                     day_of_week = nonwildcard_or_none f,
                     year = nonwildcard_or_none g \<rparr>
           | _ \<Rightarrow> Inl IndexError))"

section \<open>The cron evaluator of \<^verbatim>\<open>btu_cron.py\<close>\<close>

text \<open>
  The evaluator calls four libraries whose code is not part of the repository: the
  zone database (\<^verbatim>\<open>ZoneInfo\<close>), the clock, the recurrence calculator \<^verbatim>\<open>croniter\<close>
  and \<^verbatim>\<open>temporal_lib\<close>.  They are parameters of the model, gathered in one record.
  \<open>'dt\<close> is the type of datetimes (naive or aware, one class in Python), \<open>'tz\<close> the
  type of zone objects, \<open>'it\<close> the state of a \<^verbatim>\<open>croniter\<close> iterator.
\<close>

record ('dt, 'tz, 'it) cron_libs =
  config_timezone :: "error + 'tz"
  ZoneInfo :: "string \<Rightarrow> error + 'tz"
  now_utc :: "'dt"
  croniter :: "string \<Rightarrow> 'dt \<Rightarrow> error + 'it"
  get_next :: "'it \<Rightarrow> error + 'dt \<times> 'it"
  make_datetime_naive :: "'dt \<Rightarrow> 'dt"
  localize_datetime :: "'dt \<Rightarrow> 'tz \<Rightarrow> 'dt"
  astimezone_utc :: "'dt \<Rightarrow> 'dt"
  date_day :: "'dt \<Rightarrow> nat"

text \<open>The argument \<^verbatim>\<open>cron_timezone\<close>: \<^verbatim>\<open>None\<close>, a zone name or a zone object.\<close>

datatype 'tz tz_arg = TzNone | TzName string | TzInfo 'tz

text \<open>
  Lines 135 to 138: a falsy argument (\<^verbatim>\<open>None\<close> or the empty name) falls back to the
  configured zone, a name is looked up, a zone object is taken as it is.
\<close>

definition resolve_timezone :: "('dt, 'tz, 'it) cron_libs \<Rightarrow> 'tz tz_arg \<Rightarrow> error + 'tz" where
  "resolve_timezone libs cron_timezone =
     (case cron_timezone of
        TzNone \<Rightarrow> config_timezone libs
      | TzName n \<Rightarrow> (if n = [] then config_timezone libs else ZoneInfo libs n)
      | TzInfo z \<Rightarrow> Inr z)"

text \<open>Lines 140 to 141: the reference instant, the current time when none is given.\<close>

definition resolve_from :: "('dt, 'tz, 'it) cron_libs \<Rightarrow> 'dt option \<Rightarrow> 'dt" where
  "resolve_from libs from_utc_datetime =
     (case from_utc_datetime of None \<Rightarrow> now_utc libs | Some d \<Rightarrow> d)"

text \<open>
  Line 155: \<^verbatim>\<open>[iterator.get_next(DateTimeType) for each in range(number_of_results)]\<close>;
  an exception of the iterator ends the comprehension.
\<close>

fun collect_next :: "('it \<Rightarrow> error + 'dt \<times> 'it) \<Rightarrow> nat \<Rightarrow> 'it \<Rightarrow> error + 'dt list" where
  "collect_next gn 0 it = Inr []"
| "collect_next gn (Suc n) it =
     (case gn it of
        Inl e \<Rightarrow> Inl e
      | Inr (d, it') \<Rightarrow>
          (case collect_next gn n it' of
             Inl e \<Rightarrow> Inl e
           | Inr ds \<Rightarrow> Inr (d # ds)))"

text \<open>Lines 154 to 155: the raw output of the recurrence calculator.\<close>

definition croniter_results ::
  "('dt, 'tz, 'it) cron_libs \<Rightarrow> string \<Rightarrow> 'dt \<Rightarrow> nat \<Rightarrow> error + 'dt list" where
  "croniter_results libs expr start number_of_results =
     (case croniter libs expr start of
        Inl e \<Rightarrow> Inl e
      | Inr iterator \<Rightarrow> collect_next (get_next libs) number_of_results iterator)"

text \<open>
  What the evaluator returns: the instants, and the pairs it reports to the debug log
  (original and corrected instant falling on different days of the month).
\<close>

record 'dt evaluation =
  instants :: "'dt list"
  diagnostics :: "('dt \<times> 'dt) list"

text \<open>
  Lines 176 to 187: the loop of scenario 3, with \<^verbatim>\<open>modified_results\<close> and the debug log
  as accumulators.
\<close>

fun relocalize_loop ::
  "('dt, 'tz, 'it) cron_libs \<Rightarrow> 'tz \<Rightarrow> 'dt list \<Rightarrow> 'dt evaluation \<Rightarrow> 'dt evaluation" where
  "relocalize_loop libs tz [] acc = acc"
| "relocalize_loop libs tz (utc_datetime # remaining) acc =
     (let naive_datetime = make_datetime_naive libs utc_datetime;
          tz_aware = localize_datetime libs naive_datetime tz;
          new_utc_datetime = astimezone_utc libs tz_aware;
          modified_results = instants acc @ [new_utc_datetime];
          log = (if date_day libs utc_datetime = date_day libs new_utc_datetime
                 then diagnostics acc
                 else diagnostics acc @ [(utc_datetime, new_utc_datetime)])
      in relocalize_loop libs tz remaining \<lparr> instants = modified_results, diagnostics = log \<rparr>)"

text \<open>
  \<^verbatim>\<open>tz_cron_to_utc_datetimes\<close>.  \<^verbatim>\<open>number_of_results\<close> is a natural number
  (\<^verbatim>\<open>range\<close> of a negative number is empty, as of 0); the \<^verbatim>\<open>TypeError\<close> of line 143
  cannot arise for an argument of the declared type.
\<close>

definition tz_cron_to_utc_datetimes ::
  "('dt, 'tz, 'it) cron_libs \<Rightarrow> string \<Rightarrow> 'tz tz_arg \<Rightarrow> 'dt option \<Rightarrow> nat \<Rightarrow> bool
     \<Rightarrow> error + 'dt evaluation" where
  "tz_cron_to_utc_datetimes libs cron_expression_string cron_timezone from_utc_datetime
       number_of_results cron_is_utc =
     (case resolve_timezone libs cron_timezone of
        Inl e \<Rightarrow> Inl e
      | Inr tz \<Rightarrow>
          (case from_string cron_expression_string of
             Inl e \<Rightarrow> Inl e
           | Inr this_cronstruct \<Rightarrow>
               (case croniter_results libs (to_string this_cronstruct)
                       (resolve_from libs from_utc_datetime) number_of_results of
                  Inl e \<Rightarrow> Inl e
                | Inr result_datetimes \<Rightarrow>
                    if hour this_cronstruct = None \<or> hour this_cronstruct = Some ''*''
                    then Inr \<lparr> instants = result_datetimes, diagnostics = [] \<rparr>
                    else if cron_is_utc
                    then Inr \<lparr> instants = result_datetimes, diagnostics = [] \<rparr>
                    else Inr (relocalize_loop libs tz result_datetimes
                                \<lparr> instants = [], diagnostics = [] \<rparr>))))"

text \<open>
  The transformation of one instant in scenario 3, as the specification words it: strip
  the UTC marker, reinterpret the reading in the zone, convert to UTC.
\<close>

definition strip_reinterpret_convert :: "('dt, 'tz, 'it) cron_libs \<Rightarrow> 'tz \<Rightarrow> 'dt \<Rightarrow> 'dt" where
  "strip_reinterpret_convert libs tz d =
     astimezone_utc libs (localize_datetime libs (make_datetime_naive libs d) tz)"

text \<open>
  A stand-in for the libraries, to run the evaluator on: datetimes are a wall-clock
  reading in seconds with an optional offset from UTC, a zone is a fixed offset, the
  calculator fires every 1800 seconds whatever the expression, a day has 86400 seconds.
\<close>

definition fixed_offset_libs :: "(int \<times> int option, int, int) cron_libs" where
  "fixed_offset_libs =
     \<lparr> config_timezone = Inr (- 28800),
       ZoneInfo = (\<lambda>n. if n = ''UTC'' then Inr 0 else Inl (LibraryError ''ZoneInfoNotFoundError'')),
       now_utc = (0, Some 0),
       croniter = (\<lambda>expr start. Inr (fst start)),
       get_next = (\<lambda>it. Inr (((it div 1800 + 1) * 1800, Some 0), (it div 1800 + 1) * 1800)),
       make_datetime_naive = (\<lambda>d. (fst d, None)),
       localize_datetime = (\<lambda>d tz. (fst d, Some tz)),
       astimezone_utc = (\<lambda>d. (case snd d of None \<Rightarrow> d | Some off \<Rightarrow> (fst d - off, Some 0))),
       date_day = (\<lambda>d. nat (fst d div 86400)) \<rparr>"

section \<open>The queue job record and the dispatcher of \<^verbatim>\<open>btu_rq.py\<close>\<close>

record 'dt RQJobWrapper =
  job_key :: string
  job_key_short :: string
  fully_qualified_key :: string
  created_at :: "'dt"
  data :: "string option"
  description :: string
  ended_at :: "'dt option"
  enqueued_at :: "'dt option"
  exc_info :: "string option"
  last_heartbeat :: "'dt"
  meta :: "string option"
  origin :: string
  result_ttl :: "string option"
  started_at :: "string option"
  status :: "string option"
  timeout :: int
  worker_name :: string
  rq_job_object :: "unit option"

text \<open>
  \<^verbatim>\<open>RQJobWrapper.new_with_defaults\<close>.  What the body reads from outside is an argument:
  the configured \<^verbatim>\<open>jobs_site_prefix\<close>, the value of \<^verbatim>\<open>uuid.uuid4()\<close> and the two
  readings of the clock.  The body calls nothing else; in particular it has no
  connection to the store.
\<close>

definition new_with_defaults :: "string \<Rightarrow> string \<Rightarrow> 'dt \<Rightarrow> 'dt \<Rightarrow> 'dt RQJobWrapper" where
  "new_with_defaults jobs_site_prefix uuid_string now1 now2 =
     (let new_job_key = jobs_site_prefix @ ''|'' @ uuid_string
      in \<lparr> job_key = new_job_key,
           job_key_short = uuid_string,
           fully_qualified_key = ''rq:job:'' @ new_job_key,
           created_at = now1,
           data = None,
           description = [],
           ended_at = None,
           enqueued_at = None,
           exc_info = None,
           last_heartbeat = now2,
           meta = None,
           origin = ''default'',
           result_ttl = None,
           started_at = None,
           status = Some ''queued'',
           timeout = 3600,
           worker_name = [],
           rq_job_object = None \<rparr>)"

text \<open>
  The connection to the store, as far as \<^verbatim>\<open>DEL_enqueue_job_immediate\<close> uses it, over a
  store state \<open>'s\<close>.  Two reads go through the rq library: the job ids of the queue of
  the started-job registry, and the origin of the fetched job.  Two writes are Redis
  commands; a command returns its reply or raises, and leaves a new store state.
\<close>

record 's redis_conn =
  registry_queue_job_ids :: "'s \<Rightarrow> error + string list"
  job_fetch_origin :: "'s \<Rightarrow> string \<Rightarrow> error + string"
  sadd :: "'s \<Rightarrow> string \<Rightarrow> string \<Rightarrow> (error + int) \<times> 's"
  rpush :: "'s \<Rightarrow> string \<Rightarrow> string \<Rightarrow> (error + int) \<times> 's"

text \<open>The write commands the function sends, in the order sent.\<close>

datatype redis_cmd = SADD string string | RPUSH string string

record 's enqueue_run =
  outcome :: "error + unit"
  store :: "'s"
  sent :: "redis_cmd list"

text \<open>\<^verbatim>\<open>create_connection\<close> raises when the configuration dictionary is empty.\<close>

definition create_connection :: "bool \<Rightarrow> error + unit" where
  "create_connection config_loaded =
     (if config_loaded then Inr ()
      else Inl (LibraryError ''RuntimeError: Application configuration is not loaded.''))"

text \<open>
  \<^verbatim>\<open>DEL_enqueue_job_immediate\<close>.  \<^verbatim>\<open>if not some_result\<close> holds for the reply 0.  The last
  line reads the attribute \<^verbatim>\<open>info\<close> of \<^verbatim>\<open>get_logger\<close> itself (every other use in the
  repository calls \<^verbatim>\<open>get_logger()\<close>); \<^verbatim>\<open>get_logger\<close> is defined outside the given
  sources, so whether that read succeeds is the argument \<open>get_logger_has_info\<close>.
\<close>

definition DEL_enqueue_job_immediate ::
  "'s redis_conn \<Rightarrow> bool \<Rightarrow> bool \<Rightarrow> string \<Rightarrow> 's \<Rightarrow> 's enqueue_run" where
  "DEL_enqueue_job_immediate redis_conn config_loaded get_logger_has_info existing_job_id s =
     (case create_connection config_loaded of
        Inl e \<Rightarrow> \<lparr> outcome = Inl e, store = s, sent = [] \<rparr>
      | Inr _ \<Rightarrow>
     (case registry_queue_job_ids redis_conn s of
        Inl e \<Rightarrow> \<lparr> outcome = Inl e, store = s, sent = [] \<rparr>
      | Inr queued_job_ids \<Rightarrow>
     (case job_fetch_origin redis_conn s existing_job_id of
        Inl e \<Rightarrow> \<lparr> outcome = Inl e, store = s, sent = [] \<rparr>
      | Inr this_job_origin \<Rightarrow>
          (let queue_key = ''rq:queue:'' @ this_job_origin;
               (some_result, s1) = sadd redis_conn s ''rq:queues'' queue_key;
               sent1 = [SADD ''rq:queues'' queue_key]
           in case some_result of
                Inl e \<Rightarrow> \<lparr> outcome = Inl e, store = s1, sent = sent1 \<rparr>
              | Inr r1 \<Rightarrow>
                  if r1 = 0 then \<lparr> outcome = Inl (IOError_ack r1), store = s1, sent = sent1 \<rparr>
                  else
                    (let (push_result, s2) = rpush redis_conn s1 queue_key existing_job_id;
                         sent2 = sent1 @ [RPUSH queue_key existing_job_id]
                     in case push_result of
                          Inl e \<Rightarrow> \<lparr> outcome = Inl e, store = s2, sent = sent2 \<rparr>
                        | Inr r2 \<Rightarrow>
                            if r2 = 0
                            then \<lparr> outcome = Inl (IOError_ack r2), store = s2, sent = sent2 \<rparr>
                            else if get_logger_has_info
                            then \<lparr> outcome = Inr (), store = s2, sent = sent2 \<rparr>
                            else \<lparr> outcome = Inl AttributeError, store = s2, sent = sent2 \<rparr>)))))"

text \<open>A reply that the function accepts: no exception, and a truthy number.\<close>

definition acknowledged :: "error + int \<Rightarrow> bool" where
  "acknowledged reply = (case reply of Inl e \<Rightarrow> False | Inr r \<Rightarrow> r \<noteq> 0)"

text \<open>
  The Redis server, after its command reference: \<^verbatim>\<open>SADD\<close> replies with the number of
  members added, which is 0 for a member already in the set; \<^verbatim>\<open>RPUSH\<close> appends at the
  tail and replies with the new length of the list.  \<open>job_origin\<close> holds the origin of
  every stored job.
\<close>

record redis =
  smembers :: "string \<Rightarrow> string set"
  lrange :: "string \<Rightarrow> string list"
  job_origin :: "string \<Rightarrow> string option"

definition redis_sadd :: "redis \<Rightarrow> string \<Rightarrow> string \<Rightarrow> (error + int) \<times> redis" where
  "redis_sadd r key member =
     (if member \<in> smembers r key then (Inr 0, r)
      else (Inr 1, r\<lparr> smembers := (smembers r)(key := insert member (smembers r key)) \<rparr>))"

definition redis_rpush :: "redis \<Rightarrow> string \<Rightarrow> string \<Rightarrow> (error + int) \<times> redis" where
  "redis_rpush r key element =
     (Inr (int (length (lrange r key)) + 1),
      r\<lparr> lrange := (lrange r)(key := lrange r key @ [element]) \<rparr>)"

definition redis_server :: "redis redis_conn" where
  "redis_server =
     \<lparr> registry_queue_job_ids = (\<lambda>r. Inr (lrange r ''rq:queue:default'')),
       job_fetch_origin = (\<lambda>r job_id.
          case job_origin r job_id of
            None \<Rightarrow> Inl (LibraryError ''NoSuchJobError'')
          | Some q \<Rightarrow> Inr q),
       sadd = redis_sadd,
       rpush = redis_rpush \<rparr>"

text \<open>The same server with a push that is not acknowledged: reply 0, nothing stored.\<close>

definition redis_push_refused :: "redis redis_conn" where
  "redis_push_refused = redis_server\<lparr> rpush := (\<lambda>r key element. (Inr 0, r)) \<rparr>"

text \<open>
  Two stores holding the job \<^verbatim>\<open>job-1\<close> of origin \<^verbatim>\<open>default\<close>: in \<open>store_known_queue\<close> the
  queue \<^verbatim>\<open>rq:queue:default\<close> is registered and holds \<^verbatim>\<open>job-0\<close>; \<open>store_no_queue\<close> has no
  queue yet.
\<close>

definition store_known_queue :: redis where
  "store_known_queue =
     \<lparr> smembers = (\<lambda>k. if k = ''rq:queues'' then {''rq:queue:default''} else {}),
       lrange = (\<lambda>k. if k = ''rq:queue:default'' then [''job-0''] else []),
       job_origin = (\<lambda>j. if j = ''job-1'' \<or> j = ''job-0'' then Some ''default'' else None) \<rparr>"

definition store_no_queue :: redis where
  "store_no_queue =
     \<lparr> smembers = (\<lambda>k. {}),
       lrange = (\<lambda>k. []),
       job_origin = (\<lambda>j. if j = ''job-1'' then Some ''default'' else None) \<rparr>"

section \<open>The trigger call of \<^verbatim>\<open>structs/__init__.py\<close>\<close>

record 'tz BtuTaskSchedule =
  id_key :: string
  task_key :: string
  task_description :: string
  enabled :: bool
  queue_name :: string
  argument_overrides :: "string option"
  schedule_description :: string
  cron_string :: string
  cron_timezone :: "'tz tz_arg"
  run_frequency :: string
  redis_job_id :: "string option"

text \<open>
  \<^verbatim>\<open>get_next_runtimes\<close>: only a schedule of frequency \<^verbatim>\<open>Cron Style\<close> holds a cron
  string in local time.
\<close>

definition get_next_runtimes ::
  "('dt, 'tz, 'it) cron_libs \<Rightarrow> 'tz BtuTaskSchedule \<Rightarrow> 'dt option \<Rightarrow> nat \<Rightarrow> error + 'dt evaluation" where
  "get_next_runtimes libs self from_utc_datetime number_results =
     (let cron_is_utc = (run_frequency self \<noteq> ''Cron Style'')
      in tz_cron_to_utc_datetimes libs (cron_string self) (cron_timezone self)
           from_utc_datetime number_results cron_is_utc)"

record http_request =
  url :: string
  headers :: "(string \<times> string) list"
  params :: "(string \<times> string) list"
  timeout_seconds :: nat

text \<open>
  A response: its status code and what \<^verbatim>\<open>response.json()\<close> gives, the decoded body or
  the decoder's exception.
\<close>

record http_response =
  status_code :: int
  json :: "error + string"

record config_data =
  webserver_token :: string
  webserver_host_header :: "string option"

text \<open>
  \<^verbatim>\<open>enqueue_for_next_available_worker\<close>.  \<open>post\<close> is \<^verbatim>\<open>requests.post\<close>: it returns the
  response or raises (a transport failure, the expiry of the timeout);
  \<open>frappe_base_url\<close> is the value of \<^verbatim>\<open>get_frappe_base_url()\<close>.  The result holds
  the requests issued and the outcome.  The body is decoded for the debug log before the
  status code is looked at.
\<close>

definition enqueue_for_next_available_worker ::
  "config_data \<Rightarrow> string \<Rightarrow> (http_request \<Rightarrow> error + http_response) \<Rightarrow> 'tz BtuTaskSchedule
     \<Rightarrow> http_request list \<times> (error + unit)" where
  "enqueue_for_next_available_worker cfg frappe_base_url post self =
     (let request =
            \<lparr> url = frappe_base_url
                    @ ''/api/method/btu.btu_api.endpoints.enqueue_for_next_available_worker'',
              headers = [(''Authorization'', webserver_token cfg),
                         (''Content-Type'', ''application/json'')]
                        @ (case webserver_host_header cfg of
                             None \<Rightarrow> []
                           | Some h \<Rightarrow> (if h = [] then [] else [(''Host'', h)])),
              params = [(''task_schedule_key'', id_key self)],
              timeout_seconds = 30 \<rparr>
      in ([request],
          (case post request of
             Inl e \<Rightarrow> Inl e
           | Inr response \<Rightarrow>
               (case json response of
                  Inl e \<Rightarrow> Inl e
                | Inr body \<Rightarrow>
                    if status_code response = 200 then Inr ()
                    else Inl (IOError_msg
                      (''Unexpected response code from Frappe Framework web server: '' @ body))))))"

text \<open>Three endpoints to run the call against.\<close>

definition endpoint_200_json :: "http_request \<Rightarrow> error + http_response" where
  "endpoint_200_json request = Inr \<lparr> status_code = 200, json = Inr ''{}'' \<rparr>"

definition endpoint_500_json :: "http_request \<Rightarrow> error + http_response" where
  "endpoint_500_json request = Inr \<lparr> status_code = 500, json = Inr ''{\"exc\": 1}'' \<rparr>"

definition endpoint_200_not_json :: "http_request \<Rightarrow> error + http_response" where
  "endpoint_200_not_json request =
     Inr \<lparr> status_code = 200, json = Inl (LibraryError ''JSONDecodeError'') \<rparr>"

definition a_schedule :: "int BtuTaskSchedule" where
  "a_schedule =
     \<lparr> id_key = ''TS-000001'', task_key = ''TASK-1'', task_description = ''ping'',
       enabled = True, queue_name = ''default'', argument_overrides = None,
       schedule_description = ''daily'', cron_string = ''0 9 * * *'',
       cron_timezone = TzNone, run_frequency = ''Cron Style'', redis_job_id = None \<rparr>"

definition a_config :: config_data where
  "a_config = \<lparr> webserver_token = ''token abc'', webserver_host_header = None \<rparr>"


section \<open>Properties of the string primitives\<close>

lemma split_sp_ne [simp]: "split_sp s \<noteq> []"
  by (induction s) (auto split: list.splits)

lemma length_split_sp: "length (split_sp s) = Suc (count_list s CHR '' '')"
  by (induction s) (auto split: list.splits)

lemma count_dropWhile_le: "count_list (dropWhile P s) c \<le> count_list s c"
  by (induction s) auto

lemma count_strip_le: "count_list (strip s) c \<le> count_list s c"
proof -
  have "count_list (strip s) c = count_list (dropWhile isspace (rev (dropWhile isspace s))) c"
    by (simp add: strip_def)
  also have "\<dots> \<le> count_list (rev (dropWhile isspace s)) c"
    by (rule count_dropWhile_le)
  also have "\<dots> = count_list (dropWhile isspace s) c" by simp
  also have "\<dots> \<le> count_list s c" by (rule count_dropWhile_le)
  finally show ?thesis .
qed

lemma count_list_append: "count_list (xs @ ys) c = count_list xs c + count_list ys c"
  by (induction xs) auto

section \<open>The cron normalizer\<close>

text \<open>
  Whatever \<^verbatim>\<open>cron_str_to_cron_str7\<close> returns has at least seven elements: stripping
  never adds a space, so the string as given has at least as many elements as the
  stripped one that was counted.
\<close>

lemma cron7_has_seven:
  assumes "cron_str_to_cron_str7 s = Inr t"
  shows "7 \<le> length (split_sp t)"
proof -
  let ?n = "length (split_sp (strip s))"
  have le: "?n \<le> Suc (count_list s CHR '' '')"
    using count_strip_le [of s "CHR '' ''"] by (simp add: length_split_sp)
  consider (five) "?n = 5" "t = ''0 '' @ s @ '' *''"
    | (six) "?n = 6" "t = ''0 '' @ s"
    | (seven) "?n = 7" "t = s"
    using assms by (auto simp: cron_str_to_cron_str7_def Let_def split: if_splits)
  then show ?thesis
  proof cases
    case five
    then show ?thesis using le by (simp add: length_split_sp count_list_append)
  next
    case six
    then show ?thesis using le by (simp add: length_split_sp)
  next
    case seven
    then show ?thesis using le by (simp add: length_split_sp)
  qed
qed

lemma seven_elements:
  assumes "7 \<le> length xs"
  obtains a b c d e f g rest where "xs = a # b # c # d # e # f # g # rest"
proof -
  from assms obtain a x1 where "xs = a # x1" "6 \<le> length x1" by (cases xs) auto
  moreover then obtain b x2 where "x1 = b # x2" "5 \<le> length x2" by (cases x1) auto
  moreover then obtain c x3 where "x2 = c # x3" "4 \<le> length x3" by (cases x2) auto
  moreover then obtain d x4 where "x3 = d # x4" "3 \<le> length x4" by (cases x3) auto
  moreover then obtain e x5 where "x4 = e # x5" "2 \<le> length x5" by (cases x4) auto
  moreover then obtain f x6 where "x5 = f # x6" "1 \<le> length x6" by (cases x5) auto
  moreover then obtain g rest where "x6 = g # rest" by (cases x6) auto
  ultimately show ?thesis using that by blast
qed

lemma from_string_total_on_cron7:
  assumes "cron_str_to_cron_str7 s = Inr t"
  shows "\<exists>c. from_string s = Inr c"
proof -
  from cron7_has_seven [OF assms] obtain a b c d e f g rest
    where "split_sp t = a # b # c # d # e # f # g # rest"
    by (rule seven_elements)
  then show ?thesis using assms by (simp add: from_string_def)
qed

text \<open>
  The code's count against the number of fields.  Stripping does not change the number
  of fields; on a string whose only whitespace is the space, the fields are the
  non-empty elements of the split; an input without fields strips to the empty string.
\<close>

lemma count_fields_dropWhile: "count_fields False (dropWhile isspace s) = count_fields False s"
  by (induction s) auto

lemma count_fields_append_space:
  "\<forall>c \<in> set ws. isspace c \<Longrightarrow> count_fields b (xs @ ws) = count_fields b xs"
proof (induction xs arbitrary: b)
  case Nil
  then show ?case by (induction ws arbitrary: b) auto
next
  case (Cons x xs)
  then show ?case by simp
qed

lemma count_fields_drop_trailing:
  "count_fields b (rev (dropWhile isspace (rev s))) = count_fields b s"
proof -
  have "s = rev (dropWhile isspace (rev s)) @ rev (takeWhile isspace (rev s))"
    by (metis rev_append rev_rev_ident takeWhile_dropWhile_id)
  moreover have "\<forall>c \<in> set (rev (takeWhile isspace (rev s))). isspace c"
    by (auto dest: set_takeWhileD)
  ultimately show ?thesis
    using count_fields_append_space [of "rev (takeWhile isspace (rev s))" b
        "rev (dropWhile isspace (rev s))"]
    by simp
qed

lemma field_count_strip: "field_count (strip s) = field_count s"
  by (simp add: field_count_def strip_def count_fields_drop_trailing count_fields_dropWhile)

lemma count_fields_split_sp:
  assumes "\<forall>c \<in> set t. isspace c \<longrightarrow> c = CHR '' ''"
  shows "count_fields False t = length (filter (\<lambda>e. e \<noteq> []) (split_sp t))
       \<and> count_fields True t = length (filter (\<lambda>e. e \<noteq> []) (tl (split_sp t)))"
  using assms
proof (induction t)
  case Nil
  show ?case by simp
next
  case (Cons c cs)
  then have IH: "count_fields False cs = length (filter (\<lambda>e. e \<noteq> []) (split_sp cs))"
      "count_fields True cs = length (filter (\<lambda>e. e \<noteq> []) (tl (split_sp cs)))"
    by simp_all
  show ?case
  proof (cases "c = CHR '' ''")
    case True
    then have "isspace c" by (simp add: isspace_def)
    with True IH show ?thesis by simp
  next
    case False
    with Cons.prems have ns: "\<not> isspace c" by auto
    obtain x xs where sp: "split_sp cs = x # xs" by (cases "split_sp cs") auto
    with False ns IH show ?thesis by simp
  qed
qed

lemma single_spaced_count:
  assumes "\<forall>c \<in> set t. isspace c \<longrightarrow> c = CHR '' ''" and "[] \<notin> set (split_sp t)"
  shows "length (split_sp t) = field_count t"
proof -
  have "filter (\<lambda>e. e \<noteq> []) (split_sp t) = split_sp t"
    using assms(2) by (auto simp: filter_id_conv)
  with count_fields_split_sp [OF assms(1)] show ?thesis by (simp add: field_count_def)
qed

lemma count_fields_zero: "count_fields b s = 0 \<Longrightarrow> \<not> b \<Longrightarrow> \<forall>c \<in> set s. isspace c"
  by (induction s arbitrary: b) (auto split: if_splits)

lemma dropWhile_all: "\<forall>c \<in> set s. P c \<Longrightarrow> dropWhile P s = []"
  by (induction s) auto

lemma no_fields_strip: "field_count s = 0 \<Longrightarrow> strip s = []"
proof -
  assume "field_count s = 0"
  then have "\<forall>c \<in> set s. isspace c"
    using count_fields_zero [of False s] by (simp add: field_count_def)
  then have d: "dropWhile isspace s = []" by (rule dropWhile_all)
  show ?thesis unfolding strip_def d by simp
qed

text \<open>
  C3, as the code has it.  Let \<open>n\<close> be the number of elements the code counts: the
  length of \<^verbatim>\<open>cron_expression_string.strip().split(" ")\<close>, where every single space
  separates, so that a doubled space adds an empty element and the empty string has one
  element.  When \<open>n\<close> is not 5, 6 or 7, parsing fails with the \<^verbatim>\<open>ValueError\<close> that
  reports \<open>n\<close> together with the input; when \<open>n\<close> is 5, 6 or 7, parsing returns a
  structure.  When the fields of the input are separated by single spaces only (after
  stripping, no whitespace but the space and no empty element), \<open>n\<close> is the number of
  fields of the input.  An input without any field fails, and the error reports 1.
\<close>

theorem parse_fails_iff_wrong_count:
  "(length (split_sp (strip s)) \<notin> {5, 6, 7} \<longrightarrow>
      from_string s = Inl (ValueError (length (split_sp (strip s))) s))
   \<and> (length (split_sp (strip s)) \<in> {5, 6, 7} \<longrightarrow> (\<exists>c. from_string s = Inr c))
   \<and> ((\<forall>c \<in> set (strip s). isspace c \<longrightarrow> c = CHR '' '') \<and> [] \<notin> set (split_sp (strip s)) \<longrightarrow>
        length (split_sp (strip s)) = field_count s)
   \<and> (field_count s = 0 \<longrightarrow> from_string s = Inl (ValueError 1 s))"
proof (intro conjI impI)
  assume "length (split_sp (strip s)) \<notin> {5, 6, 7}"
  then show "from_string s = Inl (ValueError (length (split_sp (strip s))) s)"
    by (simp add: from_string_def cron_str_to_cron_str7_def Let_def)
next
  assume "length (split_sp (strip s)) \<in> {5, 6, 7}"
  then have "\<exists>t. cron_str_to_cron_str7 s = Inr t"
    by (auto simp: cron_str_to_cron_str7_def Let_def)
  then show "\<exists>c. from_string s = Inr c"
    using from_string_total_on_cron7 by blast
next
  assume "(\<forall>c \<in> set (strip s). isspace c \<longrightarrow> c = CHR '' '') \<and> [] \<notin> set (split_sp (strip s))"
  then have "length (split_sp (strip s)) = field_count (strip s)"
    by (intro single_spaced_count) simp_all
  then show "length (split_sp (strip s)) = field_count s"
    by (simp add: field_count_strip)
next
  assume "field_count s = 0"
  then have "strip s = []" by (rule no_fields_strip)
  then show "from_string s = Inl (ValueError 1 s)"
    by (simp add: from_string_def cron_str_to_cron_str7_def Let_def)
qed

theorem parse_fails_iff_wrong_count_witness:
  "field_count ''1 2 3 4'' = 4
   \<and> from_string ''1 2 3 4'' = Inl (ValueError 4 ''1 2 3 4'')
   \<and> field_count ''1 2 3 4 5 6 7 8'' = 8
   \<and> from_string ''1 2 3 4 5 6 7 8'' = Inl (ValueError 8 ''1 2 3 4 5 6 7 8'')
   \<and> field_count ''0 9 * * *'' = 5
   \<and> (\<exists>c. from_string ''0 9 * * *'' = Inr c)
   \<and> field_count '' '' = 0
   \<and> from_string '' '' = Inl (ValueError 1 '' '')"
  using parse_fails_iff_wrong_count [of "''1 2 3 4''"]
    parse_fails_iff_wrong_count [of "''1 2 3 4 5 6 7 8''"]
    parse_fails_iff_wrong_count [of "''0 9 * * *''"]
    parse_fails_iff_wrong_count [of "'' ''"]
  by (simp add: strip_def isspace_def field_count_def)

text \<open>
  The claim as the specification states it, with the number of whitespace-separated
  fields as the token count, fails in three ways: an input of four fields with a doubled
  space is accepted (as five elements, the hour being the empty string); an input of
  seven fields with a doubled space is rejected, and the error reports 8; the empty
  input, of no field, is rejected with a reported count of 1.
\<close>

theorem field_count_counterexample:
  "field_count ''1  2 3 4'' = 4
   \<and> from_string ''1  2 3 4'' =
       Inr \<lparr> second = Some ''0'', minute = Some ''1'', hour = Some [],
             day_of_month = Some ''2'', month = Some ''3'', day_of_week = Some ''4'',
             year = None \<rparr>
   \<and> field_count ''1  2 3 4 5 6 7'' = 7
   \<and> from_string ''1  2 3 4 5 6 7'' = Inl (ValueError 8 ''1  2 3 4 5 6 7'')
   \<and> field_count [] = 0
   \<and> from_string [] = Inl (ValueError 1 [])"
  by (simp add: field_count_def isspace_def from_string_def cron_str_to_cron_str7_def
      strip_def nonwildcard_or_none_def)

section \<open>Splitting, joining and stripping\<close>

lemma split_sp_append_space: "split_sp (xs @ CHR '' '' # ys) = split_sp xs @ split_sp ys"
  by (induction xs) (auto split: list.splits)

lemma split_sp_no_space: "CHR '' '' \<notin> set t \<Longrightarrow> split_sp t = [t]"
  by (induction t) auto

lemma split_sp_tokens_no_space: "t \<in> set (split_sp s) \<Longrightarrow> CHR '' '' \<notin> set t"
  by (induction s arbitrary: t) (auto split: if_splits list.splits)

lemma split_sp_single: "split_sp s = [x] \<Longrightarrow> s = x"
  by (induction s arbitrary: x) (auto split: if_splits list.splits)

lemma split_sp_cons2:
  "split_sp s = x # y # ys \<Longrightarrow> \<exists>r. s = x @ CHR '' '' # r \<and> split_sp r = y # ys"
proof (induction s arbitrary: x)
  case Nil
  then show ?case by simp
next
  case (Cons c cs)
  show ?case
  proof (cases "c = CHR '' ''")
    case True
    with Cons.prems show ?thesis by auto
  next
    case False
    with Cons.prems obtain t where t: "split_sp cs = t # y # ys" "x = c # t"
      by (auto split: list.splits)
    from Cons.IH [OF t(1)] obtain r where "cs = t @ CHR '' '' # r" "split_sp r = y # ys" by blast
    with t show ?thesis by auto
  qed
qed

lemma dropWhile_id_hd: "xs \<noteq> [] \<Longrightarrow> \<not> P (hd xs) \<Longrightarrow> dropWhile P xs = xs"
  by (cases xs) auto

lemma strip_id:
  assumes "s \<noteq> []" "\<not> isspace (hd s)" "\<not> isspace (last s)"
  shows "strip s = s"
proof -
  have 1: "dropWhile isspace s = s" using assms by (simp add: dropWhile_id_hd)
  have "dropWhile isspace (rev s) = rev s"
    using assms by (intro dropWhile_id_hd) (simp_all add: hd_rev)
  with 1 show ?thesis by (simp add: strip_def)
qed

lemma dropWhile_same_length: "length (dropWhile P xs) = length xs \<Longrightarrow> dropWhile P xs = xs"
proof (cases xs)
  case Nil
  then show ?thesis by simp
next
  case (Cons x xs')
  assume len: "length (dropWhile P xs) = length xs"
  show ?thesis
  proof (cases "P x")
    case True
    have "length (dropWhile P xs') \<le> length xs'" by (rule length_dropWhile_le)
    with True Cons len show ?thesis by simp
  next
    case False
    with Cons show ?thesis by simp
  qed
qed

lemma strip_fixed_ends:
  assumes "strip s = s" "s \<noteq> []"
  shows "\<not> isspace (hd s) \<and> \<not> isspace (last s)"
proof -
  let ?u = "dropWhile isspace s"
  have "length s = length (dropWhile isspace (rev ?u))"
    using assms(1) by (metis length_rev strip_def)
  moreover have "length (dropWhile isspace (rev ?u)) \<le> length ?u"
    using length_dropWhile_le [of isspace "rev ?u"] by simp
  moreover have "length ?u \<le> length s" by (rule length_dropWhile_le)
  ultimately have l: "length ?u = length s" "length (dropWhile isspace (rev ?u)) = length (rev ?u)"
    by simp_all
  from l(1) have u: "?u = s" by (rule dropWhile_same_length)
  from l(2) have "dropWhile isspace (rev ?u) = rev ?u" by (rule dropWhile_same_length)
  with u have r: "dropWhile isspace (rev s) = rev s" by simp
  have "\<not> isspace (hd s)" using u assms(2) by (metis hd_dropWhile)
  moreover have "\<not> isspace (hd (rev s))" using r assms(2) by (metis hd_dropWhile rev_is_Nil_conv)
  ultimately show ?thesis using assms(2) by (simp add: hd_rev)
qed

section \<open>Rendering and parsing again\<close>

lemma vow_nw_no_space: "CHR '' '' \<notin> set t \<Longrightarrow> CHR '' '' \<notin> set (value_or_wildcard (nonwildcard_or_none t))"
  by (auto simp: value_or_wildcard_def nonwildcard_or_none_def)

lemma vow_nw_id: "t \<noteq> [] \<Longrightarrow> value_or_wildcard (nonwildcard_or_none t) = t"
  by (auto simp: value_or_wildcard_def nonwildcard_or_none_def)

lemma split_sp_seven:
  assumes "CHR '' '' \<notin> set a" "CHR '' '' \<notin> set b" "CHR '' '' \<notin> set c" "CHR '' '' \<notin> set d"
    "CHR '' '' \<notin> set e" "CHR '' '' \<notin> set f" "CHR '' '' \<notin> set g"
  shows "split_sp (a @ '' '' @ b @ '' '' @ c @ '' '' @ d @ '' '' @ e @ '' '' @ f @ '' '' @ g)
         = [a, b, c, d, e, f, g]"
  using assms by (simp add: split_sp_append_space split_sp_no_space)

lemma join_seven:
  assumes "split_sp t = [a, b, c, d, e, f, g]"
  shows "t = a @ '' '' @ b @ '' '' @ c @ '' '' @ d @ '' '' @ e @ '' '' @ f @ '' '' @ g"
proof -
  from split_sp_cons2 [OF assms] obtain r1 where 1: "t = a @ CHR '' '' # r1" "split_sp r1 = [b, c, d, e, f, g]" by blast
  from split_sp_cons2 [OF 1(2)] obtain r2 where 2: "r1 = b @ CHR '' '' # r2" "split_sp r2 = [c, d, e, f, g]" by blast
  from split_sp_cons2 [OF 2(2)] obtain r3 where 3: "r2 = c @ CHR '' '' # r3" "split_sp r3 = [d, e, f, g]" by blast
  from split_sp_cons2 [OF 3(2)] obtain r4 where 4: "r3 = d @ CHR '' '' # r4" "split_sp r4 = [e, f, g]" by blast
  from split_sp_cons2 [OF 4(2)] obtain r5 where 5: "r4 = e @ CHR '' '' # r5" "split_sp r5 = [f, g]" by blast
  from split_sp_cons2 [OF 5(2)] obtain r6 where 6: "r5 = f @ CHR '' '' # r6" "split_sp r6 = [g]" by blast
  from split_sp_single [OF 6(2)] have "r6 = g" .
  with 1 2 3 4 5 6 show ?thesis by simp
qed

lemma from_string_fields:
  assumes "from_string s = Inr c"
  obtains t a b c' d e f g rest where
    "cron_str_to_cron_str7 s = Inr t"
    "split_sp t = a # b # c' # d # e # f # g # rest"
    "c = \<lparr> second = nonwildcard_or_none a, minute = nonwildcard_or_none b,
           hour = nonwildcard_or_none c', day_of_month = nonwildcard_or_none d,
           month = nonwildcard_or_none e, day_of_week = nonwildcard_or_none f,
           year = nonwildcard_or_none g \<rparr>"
proof -
  from assms obtain t where t: "cron_str_to_cron_str7 s = Inr t"
    by (auto simp: from_string_def split: sum.splits)
  from cron7_has_seven [OF t] obtain a b c' d e f g rest
    where sp: "split_sp t = a # b # c' # d # e # f # g # rest"
    by (rule seven_elements)
  with t assms have "c = \<lparr> second = nonwildcard_or_none a, minute = nonwildcard_or_none b,
           hour = nonwildcard_or_none c', day_of_month = nonwildcard_or_none d,
           month = nonwildcard_or_none e, day_of_week = nonwildcard_or_none f,
           year = nonwildcard_or_none g \<rparr>"
    by (simp add: from_string_def)
  with t sp show ?thesis using that by blast
qed

lemma to_string7_tokens:
  assumes "from_string s = Inr c"
  shows "split_sp (to_string7 c) =
    [value_or_wildcard (second c), value_or_wildcard (minute c), value_or_wildcard (hour c),
     value_or_wildcard (day_of_month c), value_or_wildcard (month c),
     value_or_wildcard (day_of_week c), value_or_wildcard (year c)]"
proof -
  from assms obtain t a b c' d e f g rest where
    sp: "split_sp t = a # b # c' # d # e # f # g # rest" and
    c: "c = \<lparr> second = nonwildcard_or_none a, minute = nonwildcard_or_none b,
           hour = nonwildcard_or_none c', day_of_month = nonwildcard_or_none d,
           month = nonwildcard_or_none e, day_of_week = nonwildcard_or_none f,
           year = nonwildcard_or_none g \<rparr>"
    by (rule from_string_fields)
  have ns: "\<And>x. x \<in> {a, b, c', d, e, f, g} \<Longrightarrow> CHR '' '' \<notin> set x"
    using split_sp_tokens_no_space [of _ t] sp by auto
  show ?thesis
    unfolding to_string7_def c
    by (simp only: CronStruct.simps, rule split_sp_seven) (simp_all add: vow_nw_no_space ns)
qed

lemma exactly_seven:
  assumes "length xs = 7"
  obtains a b c d e f g where "xs = [a, b, c, d, e, f, g]"
proof -
  from assms have "7 \<le> length xs" by simp
  then obtain a b c d e f g rest where xs: "xs = a # b # c # d # e # f # g # rest"
    by (rule seven_elements)
  with assms have "rest = []" by simp
  with xs show ?thesis using that by simp
qed

lemma seven_roundtrip:
  assumes sp: "split_sp t = [a, b, c, d, e, f, g]"
    and ne: "[] \<notin> set (split_sp t)"
    and st: "strip t = t"
  defines "k \<equiv> \<lparr> second = nonwildcard_or_none a, minute = nonwildcard_or_none b,
           hour = nonwildcard_or_none c, day_of_month = nonwildcard_or_none d,
           month = nonwildcard_or_none e, day_of_week = nonwildcard_or_none f,
           year = nonwildcard_or_none g \<rparr>"
  shows "from_string t = Inr k" and "to_string7 k = t"
proof -
  have "cron_str_to_cron_str7 t = Inr t"
    using sp st by (simp add: cron_str_to_cron_str7_def)
  then show "from_string t = Inr k"
    using sp by (simp add: from_string_def k_def)
  have "a \<noteq> []" "b \<noteq> []" "c \<noteq> []" "d \<noteq> []" "e \<noteq> []" "f \<noteq> []" "g \<noteq> []"
    using ne sp by auto
  then have "to_string7 k = a @ '' '' @ b @ '' '' @ c @ '' '' @ d @ '' '' @ e @ '' '' @ f @ '' '' @ g"
    by (simp add: to_string7_def k_def vow_nw_id)
  also have "\<dots> = t" using join_seven [OF sp] by simp
  finally show "to_string7 k = t" .
qed

lemma cron7_roundtrip:
  assumes fs: "from_string s = Inr c"
    and t: "cron_str_to_cron_str7 s = Inr t"
    and len: "length (split_sp t) = 7"
    and ne: "[] \<notin> set (split_sp t)"
    and st: "strip t = t"
  shows "from_string (to_string7 c) = Inr c"
proof -
  from len obtain a b c' d e f g where sp: "split_sp t = [a, b, c', d, e, f, g]"
    by (rule exactly_seven)
  let ?k = "\<lparr> second = nonwildcard_or_none a, minute = nonwildcard_or_none b,
           hour = nonwildcard_or_none c', day_of_month = nonwildcard_or_none d,
           month = nonwildcard_or_none e, day_of_week = nonwildcard_or_none f,
           year = nonwildcard_or_none g \<rparr>"
  have "from_string s = Inr ?k" using t sp by (simp add: from_string_def)
  with fs have c: "c = ?k" by simp
  from seven_roundtrip [OF sp ne st] show ?thesis unfolding c by simp
qed

text \<open>
  C2, as the code has it.  Whenever parsing returns a structure, its rendering by
  \<^verbatim>\<open>to_string7\<close> has exactly seven space-separated elements.  When moreover the input
  has no leading or trailing whitespace and none of its space-separated elements is
  empty, parsing the rendering again gives the same structure, field by field.
\<close>

theorem roundtrip_on_clean_input:
  assumes fs: "from_string s = Inr c"
  shows "length (split_sp (to_string7 c)) = 7
     \<and> (strip s = s \<and> [] \<notin> set (split_sp s) \<longrightarrow> from_string (to_string7 c) = Inr c)"
proof (intro conjI impI)
  show "length (split_sp (to_string7 c)) = 7"
    by (simp add: to_string7_tokens [OF fs])
next
  assume clean: "strip s = s \<and> [] \<notin> set (split_sp s)"
  then have st: "strip s = s" and ne: "[] \<notin> set (split_sp s)" by simp_all
  have s_ne: "s \<noteq> []" using ne by auto
  from strip_fixed_ends [OF st s_ne] have ends: "\<not> isspace (hd s)" "\<not> isspace (last s)" by simp_all
  from fs obtain t where t: "cron_str_to_cron_str7 s = Inr t"
    by (auto simp: from_string_def split: sum.splits)
  then consider (five) "length (split_sp s) = 5" "t = ''0 '' @ s @ '' *''"
    | (six) "length (split_sp s) = 6" "t = ''0 '' @ s"
    | (seven) "length (split_sp s) = 7" "t = s"
    using st by (auto simp: cron_str_to_cron_str7_def Let_def split: if_splits)
  then show "from_string (to_string7 c) = Inr c"
  proof cases
    case five
    have sp: "split_sp t = ''0'' # split_sp s @ [''*'']"
      using split_sp_append_space [of "''0''" "s @ '' *''"] split_sp_append_space [of s "''*''"]
      by (simp add: five(2))
    have "strip t = t" by (rule strip_id) (simp_all add: five(2) isspace_def)
    moreover have "length (split_sp t) = 7" using sp five(1) by simp
    moreover have "[] \<notin> set (split_sp t)" using sp ne by simp
    ultimately show ?thesis using cron7_roundtrip [OF fs t] by simp
  next
    case six
    have sp: "split_sp t = ''0'' # split_sp s"
      using split_sp_append_space [of "''0''" s] by (simp add: six(2))
    have "strip t = t" by (rule strip_id) (use s_ne ends in \<open>simp_all add: six(2) isspace_def\<close>)
    moreover have "length (split_sp t) = 7" using sp six(1) by simp
    moreover have "[] \<notin> set (split_sp t)" using sp ne by simp
    ultimately show ?thesis using cron7_roundtrip [OF fs t] by simp
  next
    case seven
    then show ?thesis using cron7_roundtrip [OF fs t] st ne by simp
  qed
qed

theorem roundtrip_on_clean_input_witness:
  "from_string ''0 9 * * *'' =
     Inr \<lparr> second = Some ''0'', minute = Some ''0'', hour = Some ''9'',
           day_of_month = None, month = None, day_of_week = None, year = None \<rparr>
   \<and> length (split_sp (to_string7
         \<lparr> second = Some ''0'', minute = Some ''0'', hour = Some ''9'',
           day_of_month = None, month = None, day_of_week = None, year = None \<rparr>)) = 7
   \<and> strip ''0 9 * * *'' = ''0 9 * * *''
   \<and> [] \<notin> set (split_sp ''0 9 * * *'')
   \<and> from_string (to_string7
         \<lparr> second = Some ''0'', minute = Some ''0'', hour = Some ''9'',
           day_of_month = None, month = None, day_of_week = None, year = None \<rparr>) =
     Inr \<lparr> second = Some ''0'', minute = Some ''0'', hour = Some ''9'',
           day_of_month = None, month = None, day_of_week = None, year = None \<rparr>"
proof -
  have fs: "from_string ''0 9 * * *'' =
     Inr \<lparr> second = Some ''0'', minute = Some ''0'', hour = Some ''9'',
           day_of_month = None, month = None, day_of_week = None, year = None \<rparr>"
    by (simp add: from_string_def cron_str_to_cron_str7_def strip_def isspace_def
        nonwildcard_or_none_def)
  have clean: "strip ''0 9 * * *'' = ''0 9 * * *'' \<and> [] \<notin> set (split_sp ''0 9 * * *'')"
    by (simp add: strip_def isspace_def)
  from roundtrip_on_clean_input [OF fs] clean fs show ?thesis by blast
qed

text \<open>
  The round-trip law as the specification states it fails on an input with a doubled
  space: \<^verbatim>\<open>"1  2 3 4 5"\<close> has five whitespace-separated fields, is accepted (its six
  space-separated elements include an empty one), and parses with the hour field holding
  the empty string; the rendering turns the empty string into \<^verbatim>\<open>*\<close>, which parses
  to an unset hour.
\<close>

theorem roundtrip_doubled_space_counterexample:
  "from_string ''1  2 3 4 5'' =
     Inr \<lparr> second = Some ''0'', minute = Some ''1'', hour = Some [],
           day_of_month = Some ''2'', month = Some ''3'', day_of_week = Some ''4'',
           year = Some ''5'' \<rparr>
   \<and> from_string (to_string7
         \<lparr> second = Some ''0'', minute = Some ''1'', hour = Some [],
           day_of_month = Some ''2'', month = Some ''3'', day_of_week = Some ''4'',
           year = Some ''5'' \<rparr>) \<noteq>
     Inr \<lparr> second = Some ''0'', minute = Some ''1'', hour = Some [],
           day_of_month = Some ''2'', month = Some ''3'', day_of_week = Some ''4'',
           year = Some ''5'' \<rparr>"
  by (simp add: from_string_def cron_str_to_cron_str7_def strip_def isspace_def
      nonwildcard_or_none_def to_string7_def value_or_wildcard_def)

section \<open>Five and six fields\<close>

text \<open>
  On an input without leading or trailing whitespace the five elements are read as
  minute, hour, day of month, month and day of week, the second is \<^verbatim>\<open>0\<close> and the year
  is unset; with six elements the sixth is the year.  (An element \<^verbatim>\<open>*\<close> is stored as
  unset.)
\<close>

lemma five_fields_stripped:
  assumes "strip s = s" and "split_sp s = [m, h, dm, mo, dw]"
  shows "from_string s =
     Inr \<lparr> second = Some ''0'', minute = nonwildcard_or_none m, hour = nonwildcard_or_none h,
           day_of_month = nonwildcard_or_none dm, month = nonwildcard_or_none mo,
           day_of_week = nonwildcard_or_none dw, year = None \<rparr>"
proof -
  have "split_sp (''0 '' @ s @ '' *'') = ''0'' # split_sp s @ [''*'']"
    using split_sp_append_space [of "''0''" "s @ '' *''"] split_sp_append_space [of s "''*''"]
    by simp
  then show ?thesis
    using assms by (simp add: from_string_def cron_str_to_cron_str7_def nonwildcard_or_none_def)
qed

lemma six_fields_stripped:
  assumes "strip s = s" and "split_sp s = [m, h, dm, mo, dw, y]"
  shows "from_string s =
     Inr \<lparr> second = Some ''0'', minute = nonwildcard_or_none m, hour = nonwildcard_or_none h,
           day_of_month = nonwildcard_or_none dm, month = nonwildcard_or_none mo,
           day_of_week = nonwildcard_or_none dw, year = nonwildcard_or_none y \<rparr>"
proof -
  have "split_sp (''0 '' @ s) = ''0'' # split_sp s"
    using split_sp_append_space [of "''0''" s] by simp
  then show ?thesis
    using assms by (simp add: from_string_def cron_str_to_cron_str7_def nonwildcard_or_none_def)
qed

text \<open>
  C8 at an input with a leading space.  \<^verbatim>\<open>" 1 2 3 4 5"\<close> counts as five elements,
  because the count is taken after \<^verbatim>\<open>strip()\<close>; the seven-element string is then built
  from the input as given, so the elements shift by one: the minute is the empty string,
  the hour is \<^verbatim>\<open>1\<close> (the input's minute), and the year is \<^verbatim>\<open>5\<close> (the input's day of
  week) instead of unset.
\<close>

theorem five_fields_leading_space:
  "length (split_sp (strip '' 1 2 3 4 5'')) = 5
   \<and> from_string '' 1 2 3 4 5'' =
     Inr \<lparr> second = Some ''0'', minute = Some [], hour = Some ''1'',
           day_of_month = Some ''2'', month = Some ''3'', day_of_week = Some ''4'',
           year = Some ''5'' \<rparr>"
  by (simp add: from_string_def cron_str_to_cron_str7_def strip_def isspace_def
      nonwildcard_or_none_def)

section \<open>The cron evaluator\<close>

text \<open>
  The loop of scenario 3 is a map: it appends to the results the image of each instant
  under the three-step transformation, in order, and to the log the pairs whose days
  differ.
\<close>

lemma relocalize_loop_eq:
  "relocalize_loop libs tz xs acc =
     \<lparr> instants = instants acc @ map (strip_reinterpret_convert libs tz) xs,
       diagnostics = diagnostics acc @
         filter (\<lambda>p. date_day libs (fst p) \<noteq> date_day libs (snd p))
           (zip xs (map (strip_reinterpret_convert libs tz) xs)) \<rparr>"
proof (induction xs arbitrary: acc)
  case Nil
  show ?case by simp
next
  case (Cons x xs)
  show ?case
    by (simp add: Cons.IH Let_def strip_reinterpret_convert_def)
qed

text \<open>
  C4.  Take a query whose zone resolves and whose cron string parses, and let \<open>raw\<close> be
  the output of the recurrence calculator, run on the five-field rendering from the
  reference instant.  If the hour field of the parsed schedule is unset (a wildcard), or
  if the cron string is declared to be in UTC already (whatever its hour field), the
  evaluator returns exactly \<open>raw\<close>, and logs nothing.
\<close>

theorem wildcard_hour_or_utc_returns_raw:
  assumes "resolve_timezone libs zone_arg = Inr tz"
    and "from_string cron_expression_string = Inr c"
    and "croniter_results libs (to_string c) (resolve_from libs from_utc_datetime) n = Inr raw"
    and "hour c = None \<or> cron_is_utc"
  shows "tz_cron_to_utc_datetimes libs cron_expression_string zone_arg from_utc_datetime n
           cron_is_utc = Inr \<lparr> instants = raw, diagnostics = [] \<rparr>"
  using assms by (auto simp: tz_cron_to_utc_datetimes_def)

theorem wildcard_hour_or_utc_returns_raw_witness:
  "tz_cron_to_utc_datetimes fixed_offset_libs ''*/30 * * * *'' TzNone (Some (61260, Some 0)) 1 False
     = Inr \<lparr> instants = [(63000, Some 0)], diagnostics = [] \<rparr>
   \<and> tz_cron_to_utc_datetimes fixed_offset_libs ''0 9 * * *'' TzNone (Some (30600, Some 0)) 1 True
     = Inr \<lparr> instants = [(32400, Some 0)], diagnostics = [] \<rparr>"
proof -
  have tz: "resolve_timezone fixed_offset_libs TzNone = Inr (- 28800)"
    by (simp add: resolve_timezone_def fixed_offset_libs_def)
  have p1: "from_string ''*/30 * * * *'' =
      Inr \<lparr> second = Some ''0'', minute = Some ''*/30'', hour = None,
            day_of_month = None, month = None, day_of_week = None, year = None \<rparr>"
    by (simp add: from_string_def cron_str_to_cron_str7_def strip_def isspace_def
        nonwildcard_or_none_def)
  have p2: "from_string ''0 9 * * *'' =
      Inr \<lparr> second = Some ''0'', minute = Some ''0'', hour = Some ''9'',
            day_of_month = None, month = None, day_of_week = None, year = None \<rparr>"
    by (simp add: from_string_def cron_str_to_cron_str7_def strip_def isspace_def
        nonwildcard_or_none_def)
  have r1: "croniter_results fixed_offset_libs e (resolve_from fixed_offset_libs (Some (61260, Some 0))) 1
      = Inr [(63000, Some 0)]" for e
    by (simp add: croniter_results_def resolve_from_def fixed_offset_libs_def)
  have r2: "croniter_results fixed_offset_libs e (resolve_from fixed_offset_libs (Some (30600, Some 0))) 1
      = Inr [(32400, Some 0)]" for e
    by (simp add: croniter_results_def resolve_from_def fixed_offset_libs_def)
  show ?thesis
    using wildcard_hour_or_utc_returns_raw [OF tz p1 r1, of False]
      wildcard_hour_or_utc_returns_raw [OF tz p2 r2, of True]
    by simp
qed

text \<open>
  C5.  Take a query whose zone resolves to \<open>tz\<close> and whose cron string parses, with a
  specific hour field (neither unset nor \<^verbatim>\<open>*\<close>), not declared to be in UTC, and let
  \<open>raw\<close> be the output of the recurrence calculator.  The evaluator returns the image of
  \<open>raw\<close>, element by element and in the same order, under the transformation that
  strips the UTC marker of an instant (\<^verbatim>\<open>make_datetime_naive\<close>), reinterprets the
  naive reading in \<open>tz\<close> (\<^verbatim>\<open>localize_datetime\<close>) and converts the result to UTC
  (\<^verbatim>\<open>astimezone\<close>).
\<close>

theorem local_hour_is_relocalized:
  assumes "resolve_timezone libs zone_arg = Inr tz"
    and "from_string cron_expression_string = Inr c"
    and "croniter_results libs (to_string c) (resolve_from libs from_utc_datetime) n = Inr raw"
    and "hour c \<noteq> None" and "hour c \<noteq> Some ''*''"
    and "\<not> cron_is_utc"
  shows "\<exists>ev. tz_cron_to_utc_datetimes libs cron_expression_string zone_arg
                 from_utc_datetime n cron_is_utc = Inr ev
            \<and> instants ev = map (strip_reinterpret_convert libs tz) raw"
  using assms by (auto simp: tz_cron_to_utc_datetimes_def relocalize_loop_eq)

theorem local_hour_is_relocalized_witness:
  "\<exists>ev. tz_cron_to_utc_datetimes fixed_offset_libs ''0 9 * * *'' TzNone (Some (30600, Some 0)) 1 False
      = Inr ev \<and> instants ev = [(61200, Some 0)]"
proof -
  have tz: "resolve_timezone fixed_offset_libs TzNone = Inr (- 28800)"
    by (simp add: resolve_timezone_def fixed_offset_libs_def)
  have p2: "from_string ''0 9 * * *'' =
      Inr \<lparr> second = Some ''0'', minute = Some ''0'', hour = Some ''9'',
            day_of_month = None, month = None, day_of_week = None, year = None \<rparr>"
    by (simp add: from_string_def cron_str_to_cron_str7_def strip_def isspace_def
        nonwildcard_or_none_def)
  have r2: "croniter_results fixed_offset_libs e (resolve_from fixed_offset_libs (Some (30600, Some 0))) 1
      = Inr [(32400, Some 0)]" for e
    by (simp add: croniter_results_def resolve_from_def fixed_offset_libs_def)
  have f: "strip_reinterpret_convert fixed_offset_libs (- 28800) (32400, Some 0) = (61200, Some 0)"
    by (simp add: strip_reinterpret_convert_def fixed_offset_libs_def)
  show ?thesis
    using local_hour_is_relocalized [OF tz p2 r2, of False]
    by (simp add: f)
qed

section \<open>The queue job record\<close>

text \<open>
  C7.  Whatever the configured prefix, the generated identifier and the clock readings,
  the record of \<^verbatim>\<open>new_with_defaults\<close> has \<^verbatim>\<open>started_at\<close>, \<^verbatim>\<open>ended_at\<close> and
  \<^verbatim>\<open>enqueued_at\<close> unset, status \<^verbatim>\<open>queued\<close>, timeout 3600, a job key made of the
  prefix, a \<^verbatim>\<open>|\<close> and the identifier, and the fully qualified key \<^verbatim>\<open>rq:job:\<close>
  followed by the job key.  The constructor is a function of these four values alone: it
  takes no store and returns none.
\<close>

theorem new_with_defaults_fields:
  "started_at (new_with_defaults prefix uuid_string now1 now2) = None
   \<and> ended_at (new_with_defaults prefix uuid_string now1 now2) = None
   \<and> enqueued_at (new_with_defaults prefix uuid_string now1 now2) = None
   \<and> status (new_with_defaults prefix uuid_string now1 now2) = Some ''queued''
   \<and> timeout (new_with_defaults prefix uuid_string now1 now2) = 3600
   \<and> job_key (new_with_defaults prefix uuid_string now1 now2) = prefix @ ''|'' @ uuid_string
   \<and> fully_qualified_key (new_with_defaults prefix uuid_string now1 now2)
       = ''rq:job:'' @ job_key (new_with_defaults prefix uuid_string now1 now2)"
  by (simp add: new_with_defaults_def Let_def)

section \<open>The dispatcher\<close>

text \<open>
  Nothing is written while the connection, the registry read or the fetch of the job
  fails.
\<close>

lemma enqueue_no_write_before_fetch:
  "create_connection loaded \<noteq> Inr () \<or> registry_queue_job_ids conn s = Inl e1
     \<or> job_fetch_origin conn s job = Inl e2
   \<Longrightarrow> sent (DEL_enqueue_job_immediate conn loaded b job s) = []
       \<and> store (DEL_enqueue_job_immediate conn loaded b job s) = s"
  by (auto simp: DEL_enqueue_job_immediate_def split: sum.splits)

text \<open>
  C6.  Once the job is fetched, the first command sent is the \<^verbatim>\<open>SADD\<close> of the queue
  key to \<^verbatim>\<open>rq:queues\<close>.  If it is not acknowledged (it raises, or replies 0), nothing
  else is sent: the push is not attempted, and the error reaches the caller.  If it is
  acknowledged, the \<^verbatim>\<open>RPUSH\<close> of the job id follows, and these two commands, in this
  order, are all that is sent; the store is left as the push left it, so when the push
  is not acknowledged the caller gets the error and the registration stays (no command
  undoes it).  This holds for every store, whatever its replies.
\<close>

theorem enqueue_two_writes_in_order:
  fixes conn :: "'s redis_conn"
  assumes "create_connection loaded = Inr ()"
    and "registry_queue_job_ids conn s = Inr ids"
    and "job_fetch_origin conn s job = Inr q"
    and "reg = sadd conn s ''rq:queues'' (''rq:queue:'' @ q)"
    and "push = rpush conn (snd reg) (''rq:queue:'' @ q) job"
    and "run = DEL_enqueue_job_immediate conn loaded b job s"
  shows "(\<not> acknowledged (fst reg) \<longrightarrow>
            sent run = [SADD ''rq:queues'' (''rq:queue:'' @ q)]
            \<and> store run = snd reg
            \<and> outcome run = Inl (case fst reg of Inl e \<Rightarrow> e | Inr r \<Rightarrow> IOError_ack r))
       \<and> (acknowledged (fst reg) \<longrightarrow>
            sent run = [SADD ''rq:queues'' (''rq:queue:'' @ q), RPUSH (''rq:queue:'' @ q) job]
            \<and> store run = snd push
            \<and> (\<not> acknowledged (fst push) \<longrightarrow>
                 outcome run = Inl (case fst push of Inl e \<Rightarrow> e | Inr r \<Rightarrow> IOError_ack r)))"
  using assms
  by (auto simp: DEL_enqueue_job_immediate_def acknowledged_def Let_def
      split: sum.splits prod.splits)

theorem enqueue_two_writes_in_order_witness:
  "DEL_enqueue_job_immediate redis_push_refused True True ''job-1'' store_no_queue =
     \<lparr> outcome = Inl (IOError_ack 0),
       store = snd (redis_sadd store_no_queue ''rq:queues'' ''rq:queue:default''),
       sent = [SADD ''rq:queues'' ''rq:queue:default'', RPUSH ''rq:queue:default'' ''job-1''] \<rparr>
   \<and> ''rq:queue:default'' \<in>
        smembers (store (DEL_enqueue_job_immediate redis_push_refused True True ''job-1''
          store_no_queue)) ''rq:queues''
   \<and> lrange (store (DEL_enqueue_job_immediate redis_push_refused True True ''job-1''
          store_no_queue)) ''rq:queue:default'' = []
   \<and> sent (DEL_enqueue_job_immediate redis_server True True ''job-1'' store_known_queue)
        = [SADD ''rq:queues'' ''rq:queue:default'']"
proof -
  have 1: "create_connection True = Inr ()" by (simp add: create_connection_def)
  have 2: "registry_queue_job_ids redis_push_refused store_no_queue = Inr []"
    by (simp add: redis_push_refused_def redis_server_def store_no_queue_def)
  have 3: "job_fetch_origin redis_push_refused store_no_queue ''job-1'' = Inr ''default''"
    by (simp add: redis_push_refused_def redis_server_def store_no_queue_def)
  have 4: "registry_queue_job_ids redis_server store_known_queue = Inr [''job-0'']"
    by (simp add: redis_server_def store_known_queue_def)
  have 5: "job_fetch_origin redis_server store_known_queue ''job-1'' = Inr ''default''"
    by (simp add: redis_server_def store_known_queue_def)
  show ?thesis
    using enqueue_two_writes_in_order [OF 1 2 3 refl refl refl, of True]
      enqueue_two_writes_in_order [OF 1 4 5 refl refl refl, of True]
    by (simp add: DEL_enqueue_job_immediate_def create_connection_def redis_push_refused_def
        redis_server_def redis_sadd_def redis_rpush_def store_no_queue_def
        store_known_queue_def acknowledged_def Let_def)
qed

text \<open>
  On the Redis server the first enqueue to a queue registers the queue key and appends
  the job id; the call ends well when the last line can read \<^verbatim>\<open>get_logger.info\<close>.  In
  general the outcome on the server depends on whether the queue key is registered
  already.
\<close>

lemma enqueue_new_queue:
  "sent (DEL_enqueue_job_immediate redis_server True b ''job-1'' store_no_queue)
     = [SADD ''rq:queues'' ''rq:queue:default'', RPUSH ''rq:queue:default'' ''job-1'']
   \<and> smembers (store (DEL_enqueue_job_immediate redis_server True b ''job-1'' store_no_queue)) ''rq:queues''
     = {''rq:queue:default''}
   \<and> lrange (store (DEL_enqueue_job_immediate redis_server True b ''job-1'' store_no_queue)) ''rq:queue:default''
     = [''job-1'']
   \<and> outcome (DEL_enqueue_job_immediate redis_server True b ''job-1'' store_no_queue)
     = (if b then Inr () else Inl AttributeError)"
  by (simp add: DEL_enqueue_job_immediate_def create_connection_def redis_server_def
      redis_sadd_def redis_rpush_def store_no_queue_def Let_def)

lemma enqueue_on_server:
  assumes "job_origin r j = Some q"
  shows "outcome (DEL_enqueue_job_immediate redis_server True b j r) =
           (if ''rq:queue:'' @ q \<in> smembers r ''rq:queues'' then Inl (IOError_ack 0)
            else if b then Inr () else Inl AttributeError)"
  using assms
  by (simp add: DEL_enqueue_job_immediate_def create_connection_def redis_server_def
      redis_sadd_def redis_rpush_def Let_def)

text \<open>
  C1 at a job whose queue is already registered.  The store holds \<^verbatim>\<open>rq:queue:default\<close>
  in \<^verbatim>\<open>rq:queues\<close>; \<^verbatim>\<open>SADD\<close> replies 0 (nothing added), the function takes the reply
  for a failure and raises \<^verbatim>\<open>IOError(0)\<close>: the job id is not pushed and the list is
  as before, although the comment on that line says the name "could be there already".
\<close>

theorem enqueue_known_queue_fails:
  "DEL_enqueue_job_immediate redis_server True True ''job-1'' store_known_queue
     = \<lparr> outcome = Inl (IOError_ack 0), store = store_known_queue,
         sent = [SADD ''rq:queues'' ''rq:queue:default''] \<rparr>
   \<and> ''rq:queue:default'' \<in> smembers store_known_queue ''rq:queues''
   \<and> lrange store_known_queue ''rq:queue:default'' = [''job-0'']"
  by (simp add: DEL_enqueue_job_immediate_def create_connection_def redis_server_def
      redis_sadd_def store_known_queue_def Let_def)

section \<open>The trigger call\<close>

text \<open>
  C9, as the code has it.  The call issues one request, with a timeout of 30 seconds.
  When the body of the response decodes as JSON, the call succeeds exactly when the
  status code is 200, and for any other status raises the \<^verbatim>\<open>IOError\<close> whose message
  ends with the decoded body.  When the body does not decode, the decoder's exception is
  raised whatever the status; an exception of the transport is passed on.
\<close>

theorem trigger_call_outcome:
  assumes "enqueue_for_next_available_worker cfg base post self = (requests, result)"
  shows "\<exists>request. requests = [request] \<and> timeout_seconds request = 30
     \<and> (\<forall>response body. post request = Inr response \<longrightarrow> json response = Inr body \<longrightarrow>
           (result = Inr () \<longleftrightarrow> status_code response = 200)
           \<and> (status_code response \<noteq> 200 \<longrightarrow>
                result = Inl (IOError_msg
                  (''Unexpected response code from Frappe Framework web server: '' @ body))))
     \<and> (\<forall>response e. post request = Inr response \<longrightarrow> json response = Inl e \<longrightarrow>
           result = Inl e)
     \<and> (\<forall>e. post request = Inl e \<longrightarrow> result = Inl e)"
  using assms
  by (auto simp: enqueue_for_next_available_worker_def Let_def)

theorem trigger_call_outcome_witness:
  "snd (enqueue_for_next_available_worker a_config ''http://127.0.0.1:8000'' endpoint_200_json
          a_schedule) = Inr ()
   \<and> snd (enqueue_for_next_available_worker a_config ''http://127.0.0.1:8000'' endpoint_500_json
          a_schedule)
       = Inl (IOError_msg
           ''Unexpected response code from Frappe Framework web server: {\"exc\": 1}'')
   \<and> map timeout_seconds (fst (enqueue_for_next_available_worker a_config
          ''http://127.0.0.1:8000'' endpoint_500_json a_schedule)) = [30]"
  using trigger_call_outcome [OF surjective_pairing,
      of a_config "''http://127.0.0.1:8000''" endpoint_200_json a_schedule]
    trigger_call_outcome [OF surjective_pairing,
      of a_config "''http://127.0.0.1:8000''" endpoint_500_json a_schedule]
  by (simp add: enqueue_for_next_available_worker_def Let_def endpoint_200_json_def
      endpoint_500_json_def a_config_def a_schedule_def)

text \<open>
  The claim as the specification states it fails for a response with status 200 whose
  body is not JSON: the body is decoded for the debug log before the status is tested,
  and the call raises.
\<close>

theorem trigger_call_200_not_json_counterexample:
  "map_sum id status_code (endpoint_200_not_json (hd (fst (enqueue_for_next_available_worker
       a_config ''http://127.0.0.1:8000'' endpoint_200_not_json a_schedule)))) = Inr 200
   \<and> snd (enqueue_for_next_available_worker a_config ''http://127.0.0.1:8000''
          endpoint_200_not_json a_schedule) = Inl (LibraryError ''JSONDecodeError'')"
  by (simp add: enqueue_for_next_available_worker_def Let_def endpoint_200_not_json_def)

end
